theory Spec2Isabelle
  imports Complex_Main "HOL-Library.Sublist"
begin

section \<open>The simulation step of the top-down zombie shooter (script.js)\<close>

text \<open>
  JavaScript numbers are modelled by the reals (positions, velocities, timers, time stamps)
  and, where the program only ever stores whole numbers (score, hit points), by the
  integers. Rounding, infinities and NaN are outside the model. The global variables of
  the script form the record \<open>World\<close>; the keyboard and mouse state, the logical canvas size
  and the values drawn from \<open>Math.random\<close> during one frame are the inputs of a frame
  (\<open>Env\<close>). Every function takes the state and returns the new one.
\<close>

subsection \<open>Config\<close>

definition playerRadius :: real where "playerRadius = 16"
definition playerSpeed :: real where "playerSpeed = 240"
definition fireRate :: real where "fireRate = 200"
definition bulletSpeed :: real where "bulletSpeed = 800"
definition bulletRadius :: real where "bulletRadius = 4"
definition zombieRadius :: real where "zombieRadius = 18"
definition zombieSpeedBase :: real where "zombieSpeedBase = 50"
definition zombieSpeedPerLevel :: real where "zombieSpeedPerLevel = 8"
definition maxZombies :: int where "maxZombies = 40"
definition damageOnTouch :: int where "damageOnTouch = 20"
definition startingHP :: int where "startingHP = 100"

lemmas CONFIG_defs =
  playerRadius_def playerSpeed_def fireRate_def bulletSpeed_def bulletRadius_def
  zombieRadius_def zombieSpeedBase_def zombieSpeedPerLevel_def maxZombies_def
  damageOnTouch_def startingHP_def

subsection \<open>Utility helpers\<close>

record Vec =
  vec_x :: real
  vec_y :: real

definition clamp :: "'a::linorder \<Rightarrow> 'a \<Rightarrow> 'a \<Rightarrow> 'a" where
  "clamp v a b = max a (min b v)"

definition dist2 :: "real \<Rightarrow> real \<Rightarrow> real \<Rightarrow> real \<Rightarrow> real" where
  "dist2 ax ay bx' by' = (let dx = ax - bx'; dy = ay - by' in dx * dx + dy * dy)"

definition length_vec :: "real \<Rightarrow> real \<Rightarrow> real" where
  "length_vec x y = sqrt (x * x + y * y)"

definition normalize_vec :: "real \<Rightarrow> real \<Rightarrow> Vec" where
  "normalize_vec x y =
     (let len = length_vec x y in
      if len = 0 then \<lparr>vec_x = 0, vec_y = 0\<rparr>
      else \<lparr>vec_x = x / len, vec_y = y / len\<rparr>)"

text \<open>
  A division of JavaScript numbers never throws, but a zero divisor gives an infinity or
  NaN, which is no real number. \<open>js_div\<close> makes that visible (\<open>None\<close>), and
  \<open>normalize_checked\<close> is \<open>normalize\<close> of the script with every division checked.
\<close>

definition js_div :: "real \<Rightarrow> real \<Rightarrow> real option" where
  "js_div a b = (if b = 0 then None else Some (a / b))"

definition normalize_checked :: "real \<Rightarrow> real \<Rightarrow> Vec option" where
  "normalize_checked x y =
     (let len = length_vec x y in
      if len = 0 then Some \<lparr>vec_x = 0, vec_y = 0\<rparr>
      else (case js_div x len of
              None \<Rightarrow> None
            | Some qx \<Rightarrow> (case js_div y len of
                            None \<Rightarrow> None
                          | Some qy \<Rightarrow> Some \<lparr>vec_x = qx, vec_y = qy\<rparr>)))"

definition randRange :: "real \<Rightarrow> real \<Rightarrow> real \<Rightarrow> real" where
  \<comment> \<open>the first argument is the value drawn from \<open>Math.random\<close>\<close>
  "randRange r a b = a + r * (b - a)"

subsection \<open>Entities\<close>

record Player =
  p_x :: real
  p_y :: real
  p_vx :: real
  p_vy :: real
  radius :: real
  hp :: int
  lastShot :: real

record Bullet =
  b_x :: real
  b_y :: real
  b_vx :: real
  b_vy :: real
  b_r :: real
  life :: real

record Zombie =
  z_x :: real
  z_y :: real
  z_r :: real
  speed :: real
  z_hp :: int

definition makePlayer :: "real \<Rightarrow> real \<Rightarrow> Player" where
  "makePlayer x y =
     \<lparr>p_x = x, p_y = y, p_vx = 0, p_vy = 0, radius = playerRadius, hp = startingHP, lastShot = 0\<rparr>"

definition makeBullet :: "real \<Rightarrow> real \<Rightarrow> real \<Rightarrow> real \<Rightarrow> Bullet" where
  "makeBullet x y vx vy = \<lparr>b_x = x, b_y = y, b_vx = vx, b_vy = vy, b_r = bulletRadius, life = 1800\<rparr>"

definition makeZombie :: "real \<Rightarrow> real \<Rightarrow> real \<Rightarrow> real \<Rightarrow> Zombie" where
  \<comment> \<open>the first argument is the value drawn from \<open>Math.random\<close>\<close>
  "makeZombie r x y sp = \<lparr>z_x = x, z_y = y, z_r = zombieRadius, speed = sp, z_hp = 30 + \<lfloor>r * 20\<rfloor>\<rparr>"

subsection \<open>Game state and the inputs of a frame\<close>

record World =
  running :: bool
  score :: int
  player :: Player
  bullets :: "Bullet list"
  zombies :: "Zombie list"
  spawnTimer :: real
  spawnInterval :: real
  difficultyTimer :: real

record Keys =
  key_w :: bool
  key_a :: bool
  key_s :: bool
  key_d :: bool

record Mouse =
  mouse_x :: real
  mouse_y :: real
  mouse_down :: bool

record Env =
  keys :: Keys
  mouse :: Mouse
  canvas_w :: real  \<comment> \<open>\<open>canvas.width / (window.devicePixelRatio||1)\<close>\<close>
  canvas_h :: real
  rand_side :: real  \<comment> \<open>the four draws of \<open>Math.random\<close> in \<open>spawnZombie\<close>, in order\<close>
  rand_pos :: real
  rand_speed :: real
  rand_hp :: real

definition resetGameState :: "real \<Rightarrow> real \<Rightarrow> World \<Rightarrow> World" where
  \<comment> \<open>the two numbers are the logical canvas size\<close>
  "resetGameState w h s =
     s\<lparr>score := 0, bullets := [], zombies := [],
       player := (makePlayer (w / 2) (h / 2))\<lparr>hp := startingHP\<rparr>,
       spawnTimer := 0, spawnInterval := 1500, difficultyTimer := 0\<rparr>"

subsection \<open>Spawning zombies\<close>

definition spawnZombie :: "Env \<Rightarrow> int \<Rightarrow> Zombie list \<Rightarrow> Zombie list" where
  "spawnZombie e difficultyLevel zs =
     (let w = canvas_w e; h = canvas_h e;
          side = \<lfloor>rand_side e * 4\<rfloor>;
          margin = 20;
          (x, y) = (if side = 0 then (randRange (rand_pos e) margin (w - margin), - 40)
                    else if side = 1 then (w + 40, randRange (rand_pos e) margin (h - margin))
                    else if side = 2 then (randRange (rand_pos e) margin (w - margin), h + 40)
                    else (- 40, randRange (rand_pos e) margin (h - margin)));
          sp = zombieSpeedBase + of_int difficultyLevel * zombieSpeedPerLevel + rand_speed e * 10
      in zs @ [makeZombie (rand_hp e) x y sp])"

subsection \<open>Shooting\<close>

definition tryShoot :: "real \<Rightarrow> Mouse \<Rightarrow> World \<Rightarrow> World" where
  "tryShoot now m s =
     (if \<not> mouse_down m then s
      else let p = player s; msSince = now - lastShot p in
        if msSince < fireRate then s
        else let dx = mouse_x m - p_x p;
                 dy = mouse_y m - p_y p;
                 n = normalize_vec dx dy;
                 vx = vec_x n * bulletSpeed;
                 vy = vec_y n * bulletSpeed;
                 b = makeBullet (p_x p + vec_x n * (radius p + 8)) (p_y p + vec_y n * (radius p + 8)) vx vy
             in s\<lparr>bullets := bullets s @ [b],
                  player := p\<lparr>lastShot := now, p_x := p_x p - vec_x n * 4, p_y := p_y p - vec_y n * 4\<rparr>\<rparr>)"

subsection \<open>Update loop\<close>

definition splice1 :: "nat \<Rightarrow> 'a list \<Rightarrow> 'a list" where
  \<comment> \<open>\<open>xs.splice(i,1)\<close> for an index inside the array\<close>
  "splice1 i xs = take i xs @ drop (Suc i) xs"

definition move_player :: "real \<Rightarrow> Keys \<Rightarrow> real \<Rightarrow> real \<Rightarrow> Player \<Rightarrow> Player" where
  "move_player dt k w h p =
     (let my0 = (0::real);
          my1 = (if key_w k then my0 - 1 else my0);
          my2 = (if key_s k then my1 + 1 else my1);
          mx0 = (0::real);
          mx1 = (if key_a k then mx0 - 1 else mx0);
          mx2 = (if key_d k then mx1 + 1 else mx1);
          p1 = (if mx2 \<noteq> 0 \<or> my2 \<noteq> 0
                then let n = normalize_vec mx2 my2 in
                  p\<lparr>p_x := p_x p + vec_x n * playerSpeed * dt,
                    p_y := p_y p + vec_y n * playerSpeed * dt\<rparr>
                else p);
          p2 = p1\<lparr>p_x := clamp (p_x p1) (radius p1 + 6) (w - radius p1 - 6)\<rparr>
      in p2\<lparr>p_y := clamp (p_y p2) (radius p2 + 6) (h - radius p2 - 6)\<rparr>)"

definition bullet_step :: "real \<Rightarrow> Bullet \<Rightarrow> Bullet" where
  "bullet_step dt b =
     b\<lparr>b_x := b_x b + b_vx b * dt, b_y := b_y b + b_vy b * dt, life := life b - dt * 1000\<rparr>"

definition bullet_gone :: "real \<Rightarrow> real \<Rightarrow> Bullet \<Rightarrow> bool" where
  "bullet_gone w h b \<longleftrightarrow>
     life b \<le> 0 \<or> b_x b < - 50 \<or> b_x b > w + 50 \<or> b_y b < - 50 \<or> b_y b > h + 50"

text \<open>
  The loops of \<open>update\<close> run from the last index down to 0 and splice the array they
  scan. The first argument counts the indices still to visit: \<open>Suc i\<close> visits index
  \<open>i\<close>. Each loop is started with the length of its array.
\<close>

fun bullets_loop :: "real \<Rightarrow> real \<Rightarrow> real \<Rightarrow> nat \<Rightarrow> Bullet list \<Rightarrow> Bullet list" where
  "bullets_loop dt w h 0 bs = bs"
| "bullets_loop dt w h (Suc i) bs =
     (let b = bullet_step dt (bs ! i);
          bs1 = bs[i := b]
      in bullets_loop dt w h i (if bullet_gone w h b then splice1 i bs1 else bs1))"

definition bullet_hits :: "Bullet \<Rightarrow> Zombie \<Rightarrow> bool" where
  "bullet_hits b z \<longleftrightarrow>
     (let d2bz = dist2 (b_x b) (b_y b) (z_x z) (z_y z) in d2bz < (b_r b + z_r z) * (b_r b + z_r z))"

fun bullet_scan :: "Bullet list \<Rightarrow> Zombie \<Rightarrow> nat \<Rightarrow> nat option" where
  \<comment> \<open>the inner loop over \<open>j\<close>: the index at which it breaks, if it does\<close>
  "bullet_scan bs z 0 = None"
| "bullet_scan bs z (Suc j) = (if bullet_hits (bs ! j) z then Some j else bullet_scan bs z j)"

definition zombie_touches :: "Zombie \<Rightarrow> Player \<Rightarrow> bool" where
  "zombie_touches z p \<longleftrightarrow>
     (let d2 = dist2 (z_x z) (z_y z) (p_x p) (p_y p); hitDist = z_r z + radius p
      in d2 < hitDist * hitDist)"

definition zombie_move :: "real \<Rightarrow> Player \<Rightarrow> Zombie \<Rightarrow> Zombie" where
  "zombie_move dt p z =
     (let dx = p_x p - z_x z; dy = p_y p - z_y z; n = normalize_vec dx dy
      in z\<lparr>z_x := z_x z + vec_x n * speed z * dt, z_y := z_y z + vec_y n * speed z * dt\<rparr>)"

definition zombie_body :: "real \<Rightarrow> nat \<Rightarrow> World \<Rightarrow> World" where
  \<comment> \<open>the body of the loop over the zombies, at index \<open>i\<close>\<close>
  "zombie_body dt i s =
     (let p = player s;
          n = normalize_vec (p_x p - z_x (zombies s ! i)) (p_y p - z_y (zombies s ! i));
          z = zombie_move dt p (zombies s ! i);
          s1 = s\<lparr>zombies := (zombies s)[i := z]\<rparr>
      in if zombie_touches z p
         then let p1 = p\<lparr>hp := hp p - damageOnTouch\<rparr>;
                  z1 = z\<lparr>z_x := z_x z - vec_x n * 15, z_y := z_y z - vec_y n * 15\<rparr>;
                  s2 = s1\<lparr>player := p1, zombies := splice1 i ((zombies s1)[i := z1])\<rparr>
              in if hp p1 \<le> 0 then s2\<lparr>running := False\<rparr> else s2
         else (case bullet_scan (bullets s1) z (length (bullets s1)) of
                 None \<Rightarrow> s1
               | Some j \<Rightarrow> s1\<lparr>zombies := splice1 i (zombies s1),
                               bullets := splice1 j (bullets s1),
                               score := score s1 + 10\<rparr>))"

fun zombies_loop :: "real \<Rightarrow> nat \<Rightarrow> World \<Rightarrow> World" where
  "zombies_loop dt 0 s = s"
| "zombies_loop dt (Suc i) s = zombies_loop dt i (zombie_body dt i s)"

definition difficultyLevel_of :: "real \<Rightarrow> int" where
  "difficultyLevel_of t = \<lfloor>t / 15000\<rfloor>"

definition desiredMaxZombies_of :: "int \<Rightarrow> int \<Rightarrow> int" where
  "desiredMaxZombies_of difficultyLevel sc =
     clamp (5 + difficultyLevel * 2 + \<lfloor>real_of_int sc / 100\<rfloor>) 6 maxZombies"

definition spawn_phase :: "real \<Rightarrow> Env \<Rightarrow> World \<Rightarrow> World" where
  "spawn_phase dt e s =
     (let s1 = s\<lparr>spawnTimer := spawnTimer s + dt * 1000,
                 difficultyTimer := difficultyTimer s + dt * 1000\<rparr>;
          difficultyLevel = difficultyLevel_of (difficultyTimer s1);
          desiredMaxZombies = desiredMaxZombies_of difficultyLevel (score s1)
      in if spawnTimer s1 > spawnInterval s1 \<and> int (length (zombies s1)) < desiredMaxZombies
         then s1\<lparr>spawnTimer := 0,
                 spawnInterval := clamp (1000 - of_int difficultyLevel * 50) 380 2000,
                 zombies := spawnZombie e difficultyLevel (zombies s1)\<rparr>
         else s1)"

definition player_phase :: "real \<Rightarrow> Env \<Rightarrow> World \<Rightarrow> World" where
  "player_phase dt e s = s\<lparr>player := move_player dt (keys e) (canvas_w e) (canvas_h e) (player s)\<rparr>"

definition bullets_phase :: "real \<Rightarrow> Env \<Rightarrow> World \<Rightarrow> World" where
  "bullets_phase dt e s =
     s\<lparr>bullets := bullets_loop dt (canvas_w e) (canvas_h e) (length (bullets s)) (bullets s)\<rparr>"

definition zombies_phase :: "real \<Rightarrow> World \<Rightarrow> World" where
  "zombies_phase dt s = zombies_loop dt (length (zombies s)) s"

definition update :: "real \<Rightarrow> real \<Rightarrow> Env \<Rightarrow> World \<Rightarrow> World" where
  "update dt now e s =
     spawn_phase dt e
       (zombies_phase dt
          (bullets_phase dt e
             (tryShoot now (mouse e)
                (player_phase dt e s))))"

subsection \<open>Main loop\<close>

record Game =
  world :: World
  lastTime :: real

definition advance :: "real \<Rightarrow> real \<Rightarrow> Env \<Rightarrow> World \<Rightarrow> World" where
  \<comment> \<open>the guarded call of \<open>update\<close> in \<open>gameLoop\<close>\<close>
  "advance dt now e s = (if running s then update dt now e s else s)"

definition gameLoop :: "real \<Rightarrow> Env \<Rightarrow> Game \<Rightarrow> Game" where
  "gameLoop now e g =
     (let dt = min ((now - lastTime g) / 1000) 0.05
      in g\<lparr>lastTime := now, world := advance dt now e (world g)\<rparr>)"

fun run :: "(real \<times> Env) list \<Rightarrow> Game \<Rightarrow> Game" where
  \<comment> \<open>successive animation frames, each with its time stamp and inputs\<close>
  "run [] g = g"
| "run ((now, e) # fs) g = run fs (gameLoop now e g)"

definition startGame :: "real \<Rightarrow> real \<Rightarrow> real \<Rightarrow> Game \<Rightarrow> Game" where
  \<comment> \<open>the first number is \<open>performance.now()\<close>, the other two the logical canvas size\<close>
  "startGame now w h g =
     g\<lparr>world := (resetGameState w h (world g))\<lparr>running := True\<rparr>, lastTime := now\<rparr>"

definition initial_game :: Game where
  \<comment> \<open>the globals as the script initialises them; \<open>player\<close> is undefined there until the
      first \<open>startGame\<close>, the model holds some player in its place\<close>
  "initial_game =
     \<lparr>world = \<lparr>running = False, score = 0, player = makePlayer 0 0, bullets = [], zombies = [],
               spawnTimer = 0, spawnInterval = 1500, difficultyTimer = 0\<rparr>,
      lastTime = 0\<rparr>"

subsection \<open>Auxiliary notions\<close>

text \<open>
  The round is alive exactly as long as the player has hit points left: an invariant of
  the main loop from \<open>startGame\<close> on.
\<close>

definition alive_inv :: "World \<Rightarrow> bool" where
  "alive_inv s \<longleftrightarrow> (running s \<longleftrightarrow> 0 < hp (player s))"

text \<open>
  Contact events. The pass over the zombies has a contact at index \<open>i\<close> when the test
  \<open>d2 < hitDist * hitDist\<close> of that iteration succeeds, that is, when the zombie, after its
  move, touches the player in the state the earlier iterations have left.
  \<open>contacts_loop\<close> counts these events along the loop, \<open>update_contacts\<close> in one call of
  \<open>update\<close>, \<open>frame_contacts\<close> in one frame of the main loop (none when the round is
  over, since \<open>update\<close> is not called then), and \<open>run_contacts\<close> over a list of frames.
\<close>

fun contacts_loop :: "real \<Rightarrow> nat \<Rightarrow> World \<Rightarrow> nat" where
  "contacts_loop dt 0 s = 0"
| "contacts_loop dt (Suc i) s =
     (if zombie_touches (zombie_move dt (player s) (zombies s ! i)) (player s) then 1 else 0)
     + contacts_loop dt i (zombie_body dt i s)"

definition update_contacts :: "real \<Rightarrow> real \<Rightarrow> Env \<Rightarrow> World \<Rightarrow> nat" where
  "update_contacts dt now e s =
     (let s3 = bullets_phase dt e (tryShoot now (mouse e) (player_phase dt e s))
      in contacts_loop dt (length (zombies s3)) s3)"

definition frame_contacts :: "real \<Rightarrow> Env \<Rightarrow> Game \<Rightarrow> nat" where
  "frame_contacts now e g =
     (if running (world g)
      then update_contacts (min ((now - lastTime g) / 1000) 0.05) now e (world g)
      else 0)"

fun run_contacts :: "(real \<times> Env) list \<Rightarrow> Game \<Rightarrow> nat" where
  "run_contacts [] g = 0"
| "run_contacts ((now, e) # fs) g = frame_contacts now e g + run_contacts fs (gameLoop now e g)"

text \<open>
  The clamping box of the player, widened by \<open>slack\<close> on every side.
\<close>

definition inside :: "real \<Rightarrow> Env \<Rightarrow> Player \<Rightarrow> bool" where
  "inside slack e p \<longleftrightarrow>
     radius p + 6 - slack \<le> p_x p \<and> p_x p \<le> canvas_w e - radius p - 6 + slack
     \<and> radius p + 6 - slack \<le> p_y p \<and> p_y p \<le> canvas_h e - radius p - 6 + slack"

subsection \<open>Concrete scenes\<close>

text \<open>
  Inputs: no key pressed and the mouse button up; the button held with the aim to the right
  of the player; the button held with the aim exactly on the player of a fresh round. The
  canvas is 800 by 600 and every random draw is 0.
\<close>

definition no_keys :: Keys where
  "no_keys = \<lparr>key_w = False, key_a = False, key_s = False, key_d = False\<rparr>"

definition idle_env :: Env where
  "idle_env = \<lparr>keys = no_keys, mouse = \<lparr>mouse_x = 0, mouse_y = 0, mouse_down = False\<rparr>,
     canvas_w = 800, canvas_h = 600, rand_side = 0, rand_pos = 0, rand_speed = 0, rand_hp = 0\<rparr>"

definition fire_env :: Env where
  "fire_env = idle_env\<lparr>mouse := \<lparr>mouse_x = 500, mouse_y = 300, mouse_down = True\<rparr>\<rparr>"

definition aim_self_env :: Env where
  "aim_self_env = idle_env\<lparr>mouse := \<lparr>mouse_x = 400, mouse_y = 300, mouse_down = True\<rparr>\<rparr>"

text \<open>
  Worlds: the world right after \<open>startGame\<close> (player at the centre (400, 300), 100 hit
  points), and variations of it.
\<close>

definition fresh_world :: World where
  "fresh_world = world (startGame 0 800 600 initial_game)"

definition zombie_at :: "real \<Rightarrow> real \<Rightarrow> Zombie" where
  "zombie_at x y = makeZombie 0 x y 100"

definition doomed_world :: World where
  \<comment> \<open>20 hit points left and a zombie touching the player on either side\<close>
  "doomed_world = fresh_world\<lparr>player := (player fresh_world)\<lparr>hp := 20\<rparr>,
     zombies := [zombie_at 390 300, zombie_at 410 300]\<rparr>"

definition edge_world :: World where
  \<comment> \<open>the player on the left bound of the clamping box\<close>
  "edge_world = fresh_world\<lparr>player := (player fresh_world)\<lparr>p_x := 22\<rparr>\<rparr>"

definition calm_world :: World where
  \<comment> \<open>one zombie and one bullet, away from each other and from the player\<close>
  "calm_world = fresh_world\<lparr>zombies := [zombie_at 600 300], bullets := [makeBullet 450 300 800 0]\<rparr>"

definition kill_world :: World where
  \<comment> \<open>one zombie overlapped by the bullets at indices 1 and 2\<close>
  "kill_world = fresh_world\<lparr>zombies := [zombie_at 510 300],
     bullets := [makeBullet 480 300 800 0, makeBullet 500 300 800 0,
                 makeBullet 495 300 800 0, makeBullet 600 300 800 0]\<rparr>"

definition due_world :: World where
  \<comment> \<open>no zombies and the spawn timer about to pass the spawn interval\<close>
  "due_world = fresh_world\<lparr>spawnTimer := 1500\<rparr>"

text \<open>
  Five zombies in a row to the right of the player, 5 units apart, walking 5 units per
  frame of 50 ms: none reaches the player in the first frame, and one of them does in each
  of the next five frames. \<open>march_state h zs t\<close> is the game at time \<open>t\<close> with \<open>h\<close> hit
  points and the zombies \<open>zs\<close> left.
\<close>

definition march_state :: "int \<Rightarrow> Zombie list \<Rightarrow> real \<Rightarrow> Game" where
  "march_state h zs t =
     \<lparr>world = fresh_world\<lparr>running := (0 < h), player := (player fresh_world)\<lparr>hp := h\<rparr>,
        zombies := zs, spawnTimer := t, difficultyTimer := t\<rparr>,
      lastTime = t\<rparr>"

definition march_game :: Game where
  "march_game = march_state 100
     [zombie_at 443 300, zombie_at 448 300, zombie_at 453 300, zombie_at 458 300, zombie_at 463 300] 0"

definition march_frames :: "(real \<times> Env) list" where
  "march_frames =
     [(50, idle_env), (100, idle_env), (150, idle_env), (200, idle_env), (250, idle_env),
      (300, idle_env)]"

section \<open>Properties\<close>

subsection \<open>Geometry helpers\<close>

lemma length_vec_eq_0_iff: "length_vec x y = 0 \<longleftrightarrow> x = 0 \<and> y = 0"
  by (simp add: length_vec_def add_nonneg_eq_0_iff)

lemma length_vec_nonneg: "0 \<le> length_vec x y"
  by (simp add: length_vec_def)

lemma abs_le_length_vec1: "\<bar>x\<bar> \<le> length_vec x y"
  unfolding length_vec_def by (rule real_le_rsqrt) (simp add: power2_eq_square)

lemma abs_le_length_vec2: "\<bar>y\<bar> \<le> length_vec x y"
  unfolding length_vec_def by (rule real_le_rsqrt) (simp add: power2_eq_square)

lemma normalize_vec_zero: "normalize_vec 0 0 = \<lparr>vec_x = 0, vec_y = 0\<rparr>"
  by (simp add: normalize_vec_def length_vec_def)

lemma normalize_vec_x_bound: "\<bar>vec_x (normalize_vec x y)\<bar> \<le> 1"
  using abs_le_length_vec1 [of x y] length_vec_nonneg [of x y]
  by (auto simp: normalize_vec_def Let_def divide_le_eq)

lemma normalize_vec_y_bound: "\<bar>vec_y (normalize_vec x y)\<bar> \<le> 1"
  using abs_le_length_vec2 [of y x] length_vec_nonneg [of x y]
  by (auto simp: normalize_vec_def Let_def divide_le_eq)

lemma length_vec_axis: "length_vec x 0 = \<bar>x\<bar>"
  by (simp add: length_vec_def)

lemma normalize_vec_axis: "normalize_vec x 0 = \<lparr>vec_x = sgn x, vec_y = 0\<rparr>"
  by (simp add: normalize_vec_def length_vec_axis sgn_real_def)

text \<open>
  C8. \<open>normalize\<close> is total: on every vector each of its divisions has a nonzero divisor,
  so the checked version always returns the value of \<open>normalize\<close>; and the zero vector is
  mapped to the zero vector.
\<close>

theorem normalize_total:
  "normalize_checked x y = Some (normalize_vec x y)
   \<and> normalize_vec 0 0 = \<lparr>vec_x = 0, vec_y = 0\<rparr>"
  by (simp add: normalize_checked_def normalize_vec_def js_div_def Let_def length_vec_def)

theorem normalize_total_witness:
  "normalize_checked 3 0 = Some \<lparr>vec_x = 1, vec_y = 0\<rparr>"
  using normalize_total [of 3 0] by (simp add: normalize_vec_axis)

subsection \<open>Unfolding sets for evaluation\<close>

lemmas model_defs = update_def player_phase_def move_player_def tryShoot_def bullets_phase_def
  zombies_phase_def zombie_body_def zombie_move_def zombie_touches_def bullet_hits_def
  spawn_phase_def spawnZombie_def difficultyLevel_of_def desiredMaxZombies_of_def
  clamp_def dist2_def splice1_def bullet_step_def bullet_gone_def makeBullet_def makeZombie_def
  makePlayer_def startGame_def resetGameState_def advance_def gameLoop_def randRange_def

lemmas scene_defs = no_keys_def idle_env_def fresh_world_def initial_game_def zombie_at_def

subsection \<open>The loops of the update\<close>

lemma length_splice1: "i < length xs \<Longrightarrow> length (splice1 i xs) = length xs - 1"
  by (simp add: splice1_def)

lemma length_splice1_le: "length (splice1 i xs) \<le> length xs"
  by (simp add: splice1_def)

lemma set_splice1: "set (splice1 i xs) \<subseteq> set xs"
  unfolding splice1_def using set_take_subset [of i xs] set_drop_subset [of "Suc i" xs]
  by auto

lemma splice1_update: "splice1 i (xs[i := v]) = splice1 i xs"
  by (simp add: splice1_def)

lemma bullet_scan_Some:
  "bullet_scan bs z n = Some j \<Longrightarrow>
     j < n \<and> bullet_hits (bs ! j) z \<and> (\<forall>k. j < k \<and> k < n \<longrightarrow> \<not> bullet_hits (bs ! k) z)"
proof (induction n)
  case 0
  then show ?case by simp
next
  case (Suc n)
  show ?case
  proof (cases "bullet_hits (bs ! n) z")
    case True
    with Suc.prems show ?thesis by auto
  next
    case False
    with Suc.prems have "bullet_scan bs z n = Some j" by simp
    from Suc.IH [OF this] False show ?thesis
      by (auto simp: less_Suc_eq)
  qed
qed

lemma bullet_scan_None:
  "bullet_scan bs z n = None \<longleftrightarrow> (\<forall>k < n. \<not> bullet_hits (bs ! k) z)"
  by (induction n) (auto simp: less_Suc_eq)

lemma zombie_body_player:
  "player (zombie_body dt i s) = player s
   \<or> player (zombie_body dt i s) = (player s)\<lparr>hp := hp (player s) - damageOnTouch\<rparr>"
  by (simp add: zombie_body_def Let_def split: option.split)

lemma zombie_body_hp_le: "hp (player (zombie_body dt i s)) \<le> hp (player s)"
  using zombie_body_player [of dt i s] by (auto simp: damageOnTouch_def)

lemma zombie_body_running:
  "running (zombie_body dt i s) \<longleftrightarrow>
     running s \<and> (0 < hp (player (zombie_body dt i s))
                  \<or> hp (player (zombie_body dt i s)) = hp (player s))"
  by (auto simp: zombie_body_def Let_def damageOnTouch_def split: option.split)

lemma zombies_loop_hp_le: "hp (player (zombies_loop dt n s)) \<le> hp (player s)"
proof (induction n arbitrary: s)
  case 0
  show ?case by simp
next
  case (Suc n)
  have "hp (player (zombies_loop dt n (zombie_body dt n s))) \<le> hp (player (zombie_body dt n s))"
    by (rule Suc.IH)
  also have "\<dots> \<le> hp (player s)" by (rule zombie_body_hp_le)
  finally show ?case by simp
qed

lemma zombies_loop_running:
  "running (zombies_loop dt n s) \<longleftrightarrow>
     running s \<and> (0 < hp (player (zombies_loop dt n s))
                  \<or> hp (player (zombies_loop dt n s)) = hp (player s))"
proof (induction n arbitrary: s)
  case 0
  show ?case by simp
next
  case (Suc n)
  let ?s1 = "zombie_body dt n s"
  let ?out = "zombies_loop dt n ?s1"
  have a: "running ?out \<longleftrightarrow> running ?s1 \<and> (0 < hp (player ?out) \<or> hp (player ?out) = hp (player ?s1))"
    by (rule Suc.IH)
  have b: "running ?s1 \<longleftrightarrow> running s \<and> (0 < hp (player ?s1) \<or> hp (player ?s1) = hp (player s))"
    by (rule zombie_body_running)
  have c: "hp (player ?out) \<le> hp (player ?s1)" by (rule zombies_loop_hp_le)
  have d: "hp (player ?s1) \<le> hp (player s)" by (rule zombie_body_hp_le)
  from a b c d show ?case by auto
qed



lemma zombie_body_bullets_set: "set (bullets (zombie_body dt i s)) \<subseteq> set (bullets s)"
  by (auto simp: zombie_body_def Let_def split: option.split dest: subsetD [OF set_splice1])

lemma zombie_body_zombies_le: "length (zombies (zombie_body dt i s)) \<le> length (zombies s)"
  using length_splice1_le [of i "zombies s"] 
  by (auto simp: zombie_body_def Let_def splice1_update  split: option.split)

lemma zombie_body_timers:
  "spawnTimer (zombie_body dt i s) = spawnTimer s
   \<and> spawnInterval (zombie_body dt i s) = spawnInterval s
   \<and> difficultyTimer (zombie_body dt i s) = difficultyTimer s"
  by (simp add: zombie_body_def Let_def split: option.split)



lemma zombies_loop_bullets_set: "set (bullets (zombies_loop dt n s)) \<subseteq> set (bullets s)"
proof (induction n arbitrary: s)
  case 0
  show ?case by simp
next
  case (Suc n)
  from Suc.IH [of "zombie_body dt n s"] zombie_body_bullets_set [of dt n s]
  show ?case by auto
qed

lemma zombies_loop_zombies_le: "length (zombies (zombies_loop dt n s)) \<le> length (zombies s)"
proof (induction n arbitrary: s)
  case 0
  show ?case by simp
next
  case (Suc n)
  from Suc.IH [of "zombie_body dt n s"] zombie_body_zombies_le [of dt n s]
  show ?case by simp
qed

lemma zombies_loop_timers:
  "spawnTimer (zombies_loop dt n s) = spawnTimer s
   \<and> spawnInterval (zombies_loop dt n s) = spawnInterval s
   \<and> difficultyTimer (zombies_loop dt n s) = difficultyTimer s"
  by (induction n arbitrary: s) (simp_all add: zombie_body_timers)

subsection \<open>The whole update\<close>

lemma player_phase_fields:
  "running (player_phase dt e s) = running s \<and> score (player_phase dt e s) = score s
   \<and> bullets (player_phase dt e s) = bullets s \<and> zombies (player_phase dt e s) = zombies s
   \<and> spawnTimer (player_phase dt e s) = spawnTimer s
   \<and> spawnInterval (player_phase dt e s) = spawnInterval s
   \<and> difficultyTimer (player_phase dt e s) = difficultyTimer s
   \<and> hp (player (player_phase dt e s)) = hp (player s)
   \<and> radius (player (player_phase dt e s)) = radius (player s)
   \<and> lastShot (player (player_phase dt e s)) = lastShot (player s)"
  by (simp add: player_phase_def move_player_def Let_def)

lemma tryShoot_fields:
  "running (tryShoot now m s) = running s \<and> score (tryShoot now m s) = score s
   \<and> zombies (tryShoot now m s) = zombies s
   \<and> spawnTimer (tryShoot now m s) = spawnTimer s
   \<and> spawnInterval (tryShoot now m s) = spawnInterval s
   \<and> difficultyTimer (tryShoot now m s) = difficultyTimer s
   \<and> hp (player (tryShoot now m s)) = hp (player s)
   \<and> radius (player (tryShoot now m s)) = radius (player s)"
  by (simp add: tryShoot_def Let_def)

lemma bullets_phase_fields:
  "running (bullets_phase dt e s) = running s \<and> score (bullets_phase dt e s) = score s
   \<and> zombies (bullets_phase dt e s) = zombies s \<and> player (bullets_phase dt e s) = player s
   \<and> spawnTimer (bullets_phase dt e s) = spawnTimer s
   \<and> spawnInterval (bullets_phase dt e s) = spawnInterval s
   \<and> difficultyTimer (bullets_phase dt e s) = difficultyTimer s"
  by (simp add: bullets_phase_def)

lemma spawn_phase_fields:
  "running (spawn_phase dt e s) = running s \<and> score (spawn_phase dt e s) = score s
   \<and> bullets (spawn_phase dt e s) = bullets s \<and> player (spawn_phase dt e s) = player s"
  by (simp add: spawn_phase_def Let_def)

lemma update_hp_le: "hp (player (update dt now e s)) \<le> hp (player s)"
  using zombies_loop_hp_le [of dt "length (zombies (bullets_phase dt e (tryShoot now (mouse e) (player_phase dt e s))))"
      "bullets_phase dt e (tryShoot now (mouse e) (player_phase dt e s))"]
  by (simp add: update_def zombies_phase_def spawn_phase_fields bullets_phase_fields
      tryShoot_fields player_phase_fields)

lemma update_running:
  "running (update dt now e s) \<longleftrightarrow>
     running s \<and> (0 < hp (player (update dt now e s))
                  \<or> hp (player (update dt now e s)) = hp (player s))"
  using zombies_loop_running [of dt "length (zombies (bullets_phase dt e (tryShoot now (mouse e) (player_phase dt e s))))"
      "bullets_phase dt e (tryShoot now (mouse e) (player_phase dt e s))"]
  by (simp add: update_def zombies_phase_def spawn_phase_fields bullets_phase_fields
      tryShoot_fields player_phase_fields)



lemma advance_not_running: "\<not> running s \<Longrightarrow> advance dt now e s = s"
  by (simp add: advance_def)

lemma advance_alive_inv: "alive_inv s \<Longrightarrow> alive_inv (advance dt now e s)"
  using update_running [of dt now e s] update_hp_le [of dt now e s]
  by (auto simp: alive_inv_def advance_def)

lemma run_alive_inv: "alive_inv (world g) \<Longrightarrow> alive_inv (world (run fs g))"
proof (induction fs arbitrary: g)
  case Nil
  then show ?case by simp
next
  case (Cons f fs)
  obtain now e where f: "f = (now, e)" by (cases f)
  have "alive_inv (world (gameLoop now e g))"
    using Cons.prems by (simp add: gameLoop_def Let_def advance_alive_inv)
  from Cons.IH [OF this] show ?case by (simp add: f)
qed



subsection \<open>Phases that change nothing\<close>

lemma clamp_id: "a \<le> v \<Longrightarrow> v \<le> b \<Longrightarrow> clamp v a b = v"
  by (simp add: clamp_def)

lemma clamp_bounds: "a \<le> b \<Longrightarrow> a \<le> clamp v a b \<and> clamp v a b \<le> b"
  by (auto simp: clamp_def)

lemma move_player_still:
  "\<not> key_w k \<Longrightarrow> \<not> key_a k \<Longrightarrow> \<not> key_s k \<Longrightarrow> \<not> key_d k \<Longrightarrow>
   move_player dt k w h p =
     p\<lparr>p_x := clamp (p_x p) (radius p + 6) (w - radius p - 6),
       p_y := clamp (p_y p) (radius p + 6) (h - radius p - 6)\<rparr>"
  by (simp add: move_player_def)

lemma move_player_0:
  "move_player 0 k w h p =
     p\<lparr>p_x := clamp (p_x p) (radius p + 6) (w - radius p - 6),
       p_y := clamp (p_y p) (radius p + 6) (h - radius p - 6)\<rparr>"
  by (simp add: move_player_def Let_def)

lemma player_phase_0:
  assumes "radius (player s) + 6 \<le> p_x (player s)" "p_x (player s) \<le> canvas_w e - radius (player s) - 6"
    and "radius (player s) + 6 \<le> p_y (player s)" "p_y (player s) \<le> canvas_h e - radius (player s) - 6"
  shows "player_phase 0 e s = s"
  using assms by (simp add: player_phase_def move_player_0 clamp_id)

lemma player_phase_still:
  assumes "keys e = no_keys"
    and "radius (player s) + 6 \<le> p_x (player s)" "p_x (player s) \<le> canvas_w e - radius (player s) - 6"
    and "radius (player s) + 6 \<le> p_y (player s)" "p_y (player s) \<le> canvas_h e - radius (player s) - 6"
  shows "player_phase dt e s = s"
  using assms by (simp add: player_phase_def move_player_still no_keys_def clamp_id)

lemma tryShoot_idle:
  "\<not> (mouse_down m \<and> fireRate \<le> now - lastShot (player s)) \<Longrightarrow> tryShoot now m s = s"
  by (auto simp: tryShoot_def Let_def)

lemma bullets_loop_eq:
  "n \<le> length bs \<Longrightarrow>
   bullets_loop dt w h n bs
     = filter (\<lambda>b. \<not> bullet_gone w h b) (map (bullet_step dt) (take n bs)) @ drop n bs"
proof (induction n arbitrary: bs)
  case 0
  show ?case by simp
next
  case (Suc n)
  then have n: "n < length bs" by simp
  let ?b = "bullet_step dt (bs ! n)"
  have tk: "take (Suc n) bs = take n bs @ [bs ! n]"
    using n by (simp add: take_Suc_conv_app_nth)
  show ?case
  proof (cases "bullet_gone w h ?b")
    case True
    let ?rest = "take n bs @ drop (Suc n) bs"
    have sp: "splice1 n (bs[n := ?b]) = ?rest" by (simp add: splice1_def)
    have len: "n \<le> length ?rest" using n by simp
    have tr: "take n ?rest = take n bs" and dr: "drop n ?rest = drop (Suc n) bs"
      using n by simp_all
    have "bullets_loop dt w h (Suc n) bs = bullets_loop dt w h n ?rest"
      using True by (simp add: Let_def sp)
    also have "\<dots> = filter (\<lambda>b. \<not> bullet_gone w h b) (map (bullet_step dt) (take n bs)) @ drop (Suc n) bs"
      by (simp only: Suc.IH [OF len] tr dr)
    finally show ?thesis using True by (simp add: tk)
  next
    case False
    let ?upd = "bs[n := ?b]"
    have len: "n \<le> length ?upd" using n by simp
    have tr: "take n ?upd = take n bs" by simp
    have dr: "drop n ?upd = ?b # drop (Suc n) bs"
      using n by (simp add: upd_conv_take_nth_drop)
    have "bullets_loop dt w h (Suc n) bs = bullets_loop dt w h n ?upd"
      using False by (simp add: Let_def)
    also have "\<dots> = filter (\<lambda>b. \<not> bullet_gone w h b) (map (bullet_step dt) (take n bs))
                     @ ?b # drop (Suc n) bs"
      by (simp only: Suc.IH [OF len] tr dr)
    finally show ?thesis using False by (simp add: tk)
  qed
qed

lemma bullets_phase_eq:
  "bullets_phase dt e s =
     s\<lparr>bullets := filter (\<lambda>b. \<not> bullet_gone (canvas_w e) (canvas_h e) b)
                          (map (bullet_step dt) (bullets s))\<rparr>"
  by (simp add: bullets_phase_def bullets_loop_eq)

lemma bullet_step_0: "bullet_step 0 b = b"
  by (simp add: bullet_step_def)

lemma bullets_phase_0:
  assumes "\<forall>b \<in> set (bullets s). \<not> bullet_gone (canvas_w e) (canvas_h e) b"
  shows "bullets_phase 0 e s = s"
proof -
  have "map (bullet_step 0) (bullets s) = bullets s"
    by (simp add: bullet_step_0 map_idI)
  moreover have "filter (\<lambda>b. \<not> bullet_gone (canvas_w e) (canvas_h e) b) (bullets s) = bullets s"
    using assms by (simp add: filter_id_conv)
  ultimately show ?thesis by (simp add: bullets_phase_eq)
qed

lemma zombie_move_0: "zombie_move 0 p z = z"
  by (simp add: zombie_move_def Let_def)

lemma zombie_body_miss:
  assumes "\<not> zombie_touches (zombie_move dt (player s) (zombies s ! i)) (player s)"
    and "\<forall>b \<in> set (bullets s). \<not> bullet_hits b (zombie_move dt (player s) (zombies s ! i))"
  shows "zombie_body dt i s = s\<lparr>zombies := (zombies s)[i := zombie_move dt (player s) (zombies s ! i)]\<rparr>"
proof -
  have "bullet_scan (bullets s) (zombie_move dt (player s) (zombies s ! i)) (length (bullets s)) = None"
    using assms(2) by (simp add: bullet_scan_None)
  with assms(1) show ?thesis by (simp add: zombie_body_def Let_def)
qed

lemma zombies_loop_0:
  assumes "n \<le> length (zombies s)"
    and "\<forall>z \<in> set (zombies s). \<not> zombie_touches z (player s)"
    and "\<forall>z \<in> set (zombies s). \<forall>b \<in> set (bullets s). \<not> bullet_hits b z"
  shows "zombies_loop 0 n s = s"
  using assms(1)
proof (induction n)
  case 0
  show ?case by simp
next
  case (Suc n)
  then have n: "n < length (zombies s)" by simp
  then have mem: "zombies s ! n \<in> set (zombies s)" by simp
  have "zombie_body 0 n s = s\<lparr>zombies := (zombies s)[n := zombie_move 0 (player s) (zombies s ! n)]\<rparr>"
    using assms(2,3) mem by (intro zombie_body_miss) (simp_all add: zombie_move_0)
  then have "zombie_body 0 n s = s" by (simp add: zombie_move_0)
  with Suc show ?case by simp
qed

lemma spawn_phase_0:
  assumes "\<not> (spawnInterval s < spawnTimer s
              \<and> int (length (zombies s))
                  < desiredMaxZombies_of (difficultyLevel_of (difficultyTimer s)) (score s))"
  shows "spawn_phase 0 e s = s"
  using assms by (auto simp: spawn_phase_def Let_def)

subsection \<open>Evaluating the concrete scenes\<close>

lemma kill_facts:
  "\<not> zombie_touches (zombie_move 0 (player kill_world) (zombies kill_world ! 0)) (player kill_world)"
  "bullet_hits (bullets kill_world ! 2) (zombie_move 0 (player kill_world) (zombies kill_world ! 0))"
  "bullet_hits (bullets kill_world ! 1) (zombie_move 0 (player kill_world) (zombies kill_world ! 0))"
  "\<not> bullet_hits (bullets kill_world ! 3) (zombie_move 0 (player kill_world) (zombies kill_world ! 0))"
  "length (bullets kill_world) = 4"
  "0 < length (zombies kill_world)"
  by (simp_all add: kill_world_def zombie_move_0 scene_defs zombie_touches_def bullet_hits_def
      dist2_def makeBullet_def makeZombie_def makePlayer_def startGame_def resetGameState_def
      CONFIG_defs)

lemma kill_update:
  "bullets (update 0 0 idle_env kill_world) = splice1 2 (bullets kill_world)
   \<and> score (update 0 0 idle_env kill_world) = score kill_world + 10"
proof -
  have p1: "player_phase 0 idle_env kill_world = kill_world"
    by (rule player_phase_0)
       (simp_all add: kill_world_def scene_defs makePlayer_def startGame_def resetGameState_def CONFIG_defs)
  have p2: "tryShoot 0 (mouse idle_env) kill_world = kill_world"
    by (rule tryShoot_idle) (simp add: idle_env_def)
  have p3: "bullets_phase 0 idle_env kill_world = kill_world"
    by (rule bullets_phase_0)
       (simp add: kill_world_def scene_defs bullet_gone_def makeBullet_def)
  have p4: "zombies_phase 0 kill_world =
     kill_world\<lparr>zombies := splice1 0 (zombies kill_world),
                bullets := splice1 2 (bullets kill_world),
                score := score kill_world + 10\<rparr>"
    by (simp add: zombies_phase_def kill_world_def zombie_body_def zombie_move_0 scene_defs
        zombie_touches_def bullet_hits_def dist2_def splice1_def makeBullet_def makeZombie_def
        makePlayer_def startGame_def resetGameState_def CONFIG_defs)
  have u: "update 0 0 idle_env kill_world = spawn_phase 0 idle_env (zombies_phase 0 kill_world)"
    by (simp only: update_def p1 p2 p3)
  have b: "bullets (update 0 0 idle_env kill_world) = splice1 2 (bullets kill_world)"
    and sc: "score (update 0 0 idle_env kill_world) = score kill_world + 10"
    by (simp_all add: u p4 spawn_phase_fields)
  from b sc show ?thesis by simp
qed


lemma update_quiet:
  assumes "keys e = no_keys" and "\<not> mouse_down (mouse e)" and "bullets s = []"
    and "radius (player s) + 6 \<le> p_x (player s)" "p_x (player s) \<le> canvas_w e - radius (player s) - 6"
    and "radius (player s) + 6 \<le> p_y (player s)" "p_y (player s) \<le> canvas_h e - radius (player s) - 6"
  shows "update dt now e s = spawn_phase dt e (zombies_phase dt s)"
proof -
  have 1: "player_phase dt e s = s" using assms(1,4-7) by (rule player_phase_still)
  have 2: "tryShoot now (mouse e) s = s" using assms(2) by (intro tryShoot_idle) simp
  have 3: "bullets_phase dt e s = s" using assms(3) by (simp add: bullets_phase_eq)
  show ?thesis by (simp only: update_def 1 2 3)
qed

lemma march_update:
  "update dt now idle_env (world (march_state h zs t))
     = spawn_phase dt idle_env (zombies_phase dt (world (march_state h zs t)))"
  by (rule update_quiet)
     (simp_all add: march_state_def scene_defs makePlayer_def startGame_def resetGameState_def
       CONFIG_defs)

lemma march_spawn:
  "t + 50 \<le> 1500 \<Longrightarrow>
   spawn_phase (1/20) idle_env (world (march_state h zs t)) = world (march_state h zs (t + 50))"
  by (simp add: spawn_phase_def march_state_def fresh_world_def initial_game_def startGame_def resetGameState_def)

lemma march_frame:
  assumes "zombies_phase (1/20) (world (march_state h zs t)) = world (march_state h' zs' t)"
    and "0 < h" and "t + 50 \<le> 1500"
  shows "gameLoop (t + 50) idle_env (march_state h zs t) = march_state h' zs' (t + 50)"
proof -
  have r: "running (world (march_state h zs t))" using assms(2) by (simp add: march_state_def)
  have dt: "min ((t + 50 - lastTime (march_state h zs t)) / 1000) 0.05 = 1/20"
    by (simp add: march_state_def)
  have "advance (1/20) (t + 50) idle_env (world (march_state h zs t)) = world (march_state h' zs' (t + 50))"
    by (simp only: advance_def r if_True march_update assms(1) march_spawn [OF assms(3)])
  then have "gameLoop (t + 50) idle_env (march_state h zs t)
      = (march_state h zs t)\<lparr>lastTime := t + 50, world := world (march_state h' zs' (t + 50))\<rparr>"
    by (simp only: gameLoop_def Let_def dt)
  also have "\<dots> = march_state h' zs' (t + 50)" by (simp add: march_state_def)
  finally show ?thesis .
qed

lemmas march_eval = march_state_def scene_defs
  zombies_phase_def zombie_body_def zombie_move_def zombie_touches_def dist2_def splice1_def
  makeZombie_def makePlayer_def startGame_def resetGameState_def CONFIG_defs normalize_vec_axis

lemma march_frame_contacts:
  assumes "0 < h"
  shows "frame_contacts (t + 50) idle_env (march_state h zs t)
           = contacts_loop (1/20) (length zs) (world (march_state h zs t))"
proof -
  let ?s = "world (march_state h zs t)"
  have r: "running ?s" using assms by (simp add: march_state_def)
  have dt: "min ((t + 50 - lastTime (march_state h zs t)) / 1000) 0.05 = 1/20"
    by (simp add: march_state_def)
  have 1: "player_phase (1/20) idle_env ?s = ?s"
    by (rule player_phase_still)
       (simp_all add: march_state_def scene_defs makePlayer_def startGame_def resetGameState_def
         CONFIG_defs)
  have 2: "tryShoot (t + 50) (mouse idle_env) ?s = ?s"
    by (rule tryShoot_idle) (simp add: idle_env_def)
  have 3: "bullets_phase (1/20) idle_env ?s = ?s"
    by (simp add: bullets_phase_eq march_state_def scene_defs startGame_def resetGameState_def)
  have z: "zombies ?s = zs" by (simp add: march_state_def)
  show ?thesis
    by (simp only: frame_contacts_def r if_True dt update_contacts_def 1 2 3 Let_def z)
qed

lemma march_step1:
  "gameLoop 50 idle_env (march_state 100 [zombie_at 443 300, zombie_at 448 300, zombie_at 453 300, zombie_at 458 300, zombie_at 463 300] 0)
   = march_state 100 [zombie_at 438 300, zombie_at 443 300, zombie_at 448 300, zombie_at 453 300, zombie_at 458 300] 50"
proof -
  have "zombies_phase (1/20) (world (march_state 100 [zombie_at 443 300, zombie_at 448 300, zombie_at 453 300, zombie_at 458 300, zombie_at 463 300] 0))
     = world (march_state 100 [zombie_at 438 300, zombie_at 443 300, zombie_at 448 300, zombie_at 453 300, zombie_at 458 300] 0)"
    by (simp add: march_eval)
  from march_frame [OF this] show ?thesis by simp
qed

lemma march_contacts1:
  "frame_contacts 50 idle_env (march_state 100 [zombie_at 443 300, zombie_at 448 300, zombie_at 453 300, zombie_at 458 300, zombie_at 463 300] 0) = 0"
proof -
  have "contacts_loop (1/20) (length [zombie_at 443 300, zombie_at 448 300, zombie_at 453 300, zombie_at 458 300, zombie_at 463 300])
          (world (march_state 100 [zombie_at 443 300, zombie_at 448 300, zombie_at 453 300, zombie_at 458 300, zombie_at 463 300] 0)) = 0"
    by (simp add: march_eval)
  with march_frame_contacts [of 100 0 "[zombie_at 443 300, zombie_at 448 300, zombie_at 453 300, zombie_at 458 300, zombie_at 463 300]"] show ?thesis by simp
qed

lemma march_step2:
  "gameLoop 100 idle_env (march_state 100 [zombie_at 438 300, zombie_at 443 300, zombie_at 448 300, zombie_at 453 300, zombie_at 458 300] 50)
   = march_state 80 [zombie_at 438 300, zombie_at 443 300, zombie_at 448 300, zombie_at 453 300] 100"
proof -
  have "zombies_phase (1/20) (world (march_state 100 [zombie_at 438 300, zombie_at 443 300, zombie_at 448 300, zombie_at 453 300, zombie_at 458 300] 50))
     = world (march_state 80 [zombie_at 438 300, zombie_at 443 300, zombie_at 448 300, zombie_at 453 300] 50)"
    by (simp add: march_eval)
  from march_frame [OF this] show ?thesis by simp
qed

lemma march_contacts2:
  "frame_contacts 100 idle_env (march_state 100 [zombie_at 438 300, zombie_at 443 300, zombie_at 448 300, zombie_at 453 300, zombie_at 458 300] 50) = 1"
proof -
  have "contacts_loop (1/20) (length [zombie_at 438 300, zombie_at 443 300, zombie_at 448 300, zombie_at 453 300, zombie_at 458 300])
          (world (march_state 100 [zombie_at 438 300, zombie_at 443 300, zombie_at 448 300, zombie_at 453 300, zombie_at 458 300] 50)) = 1"
    by (simp add: march_eval)
  with march_frame_contacts [of 100 50 "[zombie_at 438 300, zombie_at 443 300, zombie_at 448 300, zombie_at 453 300, zombie_at 458 300]"] show ?thesis by simp
qed

lemma march_step3:
  "gameLoop 150 idle_env (march_state 80 [zombie_at 438 300, zombie_at 443 300, zombie_at 448 300, zombie_at 453 300] 100)
   = march_state 60 [zombie_at 438 300, zombie_at 443 300, zombie_at 448 300] 150"
proof -
  have "zombies_phase (1/20) (world (march_state 80 [zombie_at 438 300, zombie_at 443 300, zombie_at 448 300, zombie_at 453 300] 100))
     = world (march_state 60 [zombie_at 438 300, zombie_at 443 300, zombie_at 448 300] 100)"
    by (simp add: march_eval)
  from march_frame [OF this] show ?thesis by simp
qed

lemma march_contacts3:
  "frame_contacts 150 idle_env (march_state 80 [zombie_at 438 300, zombie_at 443 300, zombie_at 448 300, zombie_at 453 300] 100) = 1"
proof -
  have "contacts_loop (1/20) (length [zombie_at 438 300, zombie_at 443 300, zombie_at 448 300, zombie_at 453 300])
          (world (march_state 80 [zombie_at 438 300, zombie_at 443 300, zombie_at 448 300, zombie_at 453 300] 100)) = 1"
    by (simp add: march_eval)
  with march_frame_contacts [of 80 100 "[zombie_at 438 300, zombie_at 443 300, zombie_at 448 300, zombie_at 453 300]"] show ?thesis by simp
qed

lemma march_step4:
  "gameLoop 200 idle_env (march_state 60 [zombie_at 438 300, zombie_at 443 300, zombie_at 448 300] 150)
   = march_state 40 [zombie_at 438 300, zombie_at 443 300] 200"
proof -
  have "zombies_phase (1/20) (world (march_state 60 [zombie_at 438 300, zombie_at 443 300, zombie_at 448 300] 150))
     = world (march_state 40 [zombie_at 438 300, zombie_at 443 300] 150)"
    by (simp add: march_eval)
  from march_frame [OF this] show ?thesis by simp
qed

lemma march_contacts4:
  "frame_contacts 200 idle_env (march_state 60 [zombie_at 438 300, zombie_at 443 300, zombie_at 448 300] 150) = 1"
proof -
  have "contacts_loop (1/20) (length [zombie_at 438 300, zombie_at 443 300, zombie_at 448 300])
          (world (march_state 60 [zombie_at 438 300, zombie_at 443 300, zombie_at 448 300] 150)) = 1"
    by (simp add: march_eval)
  with march_frame_contacts [of 60 150 "[zombie_at 438 300, zombie_at 443 300, zombie_at 448 300]"] show ?thesis by simp
qed

lemma march_step5:
  "gameLoop 250 idle_env (march_state 40 [zombie_at 438 300, zombie_at 443 300] 200)
   = march_state 20 [zombie_at 438 300] 250"
proof -
  have "zombies_phase (1/20) (world (march_state 40 [zombie_at 438 300, zombie_at 443 300] 200))
     = world (march_state 20 [zombie_at 438 300] 200)"
    by (simp add: march_eval)
  from march_frame [OF this] show ?thesis by simp
qed

lemma march_contacts5:
  "frame_contacts 250 idle_env (march_state 40 [zombie_at 438 300, zombie_at 443 300] 200) = 1"
proof -
  have "contacts_loop (1/20) (length [zombie_at 438 300, zombie_at 443 300])
          (world (march_state 40 [zombie_at 438 300, zombie_at 443 300] 200)) = 1"
    by (simp add: march_eval)
  with march_frame_contacts [of 40 200 "[zombie_at 438 300, zombie_at 443 300]"] show ?thesis by simp
qed

lemma march_step6:
  "gameLoop 300 idle_env (march_state 20 [zombie_at 438 300] 250)
   = march_state 0 [] 300"
proof -
  have "zombies_phase (1/20) (world (march_state 20 [zombie_at 438 300] 250))
     = world (march_state 0 [] 250)"
    by (simp add: march_eval)
  from march_frame [OF this] show ?thesis by simp
qed

lemma march_contacts6:
  "frame_contacts 300 idle_env (march_state 20 [zombie_at 438 300] 250) = 1"
proof -
  have "contacts_loop (1/20) (length [zombie_at 438 300])
          (world (march_state 20 [zombie_at 438 300] 250)) = 1"
    by (simp add: march_eval)
  with march_frame_contacts [of 20 250 "[zombie_at 438 300]"] show ?thesis by simp
qed

lemma march_state_fields:
  "hp (player (world (march_state h zs t))) = h"
  "running (world (march_state h zs t)) \<longleftrightarrow> 0 < h"
  by (simp_all add: march_state_def)

lemma march_contacts: "run_contacts march_frames march_game = 5"
  unfolding march_frames_def march_game_def
  by (simp add: march_step1 march_step2 march_step3 march_step4 march_step5 march_step6
      march_contacts1 march_contacts2 march_contacts3 march_contacts4 march_contacts5
      march_contacts6)

lemma march_contacts_before: "run_contacts (take 5 march_frames) march_game = 4"
  unfolding march_frames_def march_game_def
  by (simp add: march_step1 march_step2 march_step3 march_step4 march_step5
      march_contacts1 march_contacts2 march_contacts3 march_contacts4 march_contacts5)

subsection \<open>Death of the player during the pass over the zombies\<close>

text \<open>
  C1 (as amended). When the contact of the zombie at index \<open>i\<close> takes the player's hit
  points to 0 or below, \<open>running\<close> is false right after that iteration, the mutations
  of the contact stand (hit points lowered by the contact damage, that zombie spliced out,
  bullets and score untouched), and \<open>running\<close> stays false through the rest of the pass
  and the spawn step. The pass does not stop there: the indices below \<open>i\<close> are visited
  as in any frame, from the state the contact left.
\<close>

theorem death_ends_round:
  assumes "zombie_touches (zombie_move dt (player s) (zombies s ! i)) (player s)"
    and "hp (player s) - damageOnTouch \<le> 0"
  shows "\<not> running (zombie_body dt i s)
       \<and> hp (player (zombie_body dt i s)) = hp (player s) - damageOnTouch
       \<and> zombies (zombie_body dt i s) = splice1 i (zombies s)
       \<and> bullets (zombie_body dt i s) = bullets s
       \<and> score (zombie_body dt i s) = score s
       \<and> zombies_loop dt (Suc i) s = zombies_loop dt i (zombie_body dt i s)
       \<and> \<not> running (zombies_loop dt (Suc i) s)
       \<and> \<not> running (spawn_phase dt e (zombies_loop dt (Suc i) s))"
proof -
  have body: "\<not> running (zombie_body dt i s)"
    using assms by (simp add: zombie_body_def Let_def)
  have "\<not> running (zombies_loop dt i (zombie_body dt i s))"
    using body zombies_loop_running [of dt i "zombie_body dt i s"] by simp
  then have loop: "\<not> running (zombies_loop dt (Suc i) s)" by simp
  have fields: "hp (player (zombie_body dt i s)) = hp (player s) - damageOnTouch
       \<and> zombies (zombie_body dt i s) = splice1 i (zombies s)
       \<and> bullets (zombie_body dt i s) = bullets s
       \<and> score (zombie_body dt i s) = score s"
    using assms by (simp add: zombie_body_def Let_def splice1_update)
  from body loop fields show ?thesis by (simp add: spawn_phase_fields)
qed

theorem death_ends_round_witness:
  "\<not> running (zombie_body 0 1 doomed_world)
   \<and> hp (player (zombie_body 0 1 doomed_world)) = 0
   \<and> zombies (zombie_body 0 1 doomed_world) = [zombie_at 390 300]
   \<and> \<not> running (zombies_loop 0 (Suc 1) doomed_world)"
proof -
  have t: "zombie_touches (zombie_move 0 (player doomed_world) (zombies doomed_world ! 1)) (player doomed_world)"
    by (simp add: doomed_world_def scene_defs zombie_move_def zombie_touches_def dist2_def
        makeZombie_def makePlayer_def startGame_def resetGameState_def CONFIG_defs)
  have h: "hp (player doomed_world) - damageOnTouch \<le> 0"
    by (simp add: doomed_world_def damageOnTouch_def)
  have z: "splice1 1 (zombies doomed_world) = [zombie_at 390 300]"
    by (simp add: doomed_world_def splice1_def)
  have hp0: "hp (player doomed_world) - damageOnTouch = 0"
    by (simp add: doomed_world_def damageOnTouch_def)
  from death_ends_round [OF t h, of idle_env, unfolded z hp0] show ?thesis
    by blast
qed

text \<open>
  The claim as stated fails: two zombies touch a player with 20 hit points; the first
  contact (index 1) ends the round, and the zombie at index 0 still deals its damage and is
  removed in the same call.
\<close>

theorem later_zombies_still_processed:
  "hp (player (zombie_body 0 1 doomed_world)) \<le> 0
   \<and> \<not> running (zombie_body 0 1 doomed_world)
   \<and> zombies (zombie_body 0 1 doomed_world) = [zombie_at 390 300]
   \<and> zombies (update 0 0 idle_env doomed_world) = []
   \<and> hp (player (update 0 0 idle_env doomed_world)) = - 20"
  by (simp add: doomed_world_def scene_defs model_defs CONFIG_defs normalize_vec_axis)

subsection \<open>Shooting with the aim on the player\<close>

text \<open>
  C2 (as amended). In a frame in which the mouse button is held, the fire interval has passed
  and the aim point is exactly the player's position, \<open>tryShoot\<close> still fires: it appends
  a bullet with velocity zero at the player's position and sets \<open>lastShot\<close> to the
  current time. The recoil is zero, so the player's position is unchanged.
\<close>

theorem shot_at_own_position:
  assumes "mouse_down m" and "fireRate \<le> now - lastShot (player s)"
    and "mouse_x m = p_x (player s)" and "mouse_y m = p_y (player s)"
  shows "tryShoot now m s =
           s\<lparr>bullets := bullets s @ [makeBullet (p_x (player s)) (p_y (player s)) 0 0],
             player := (player s)\<lparr>lastShot := now\<rparr>\<rparr>
       \<and> p_x (player (tryShoot now m s)) = p_x (player s)
       \<and> p_y (player (tryShoot now m s)) = p_y (player s)"
  using assms by (simp add: tryShoot_def Let_def normalize_vec_zero)

theorem shot_at_own_position_witness:
  "tryShoot 1000 (mouse aim_self_env) fresh_world =
     fresh_world\<lparr>bullets := [makeBullet 400 300 0 0],
                 player := (player fresh_world)\<lparr>lastShot := 1000\<rparr>\<rparr>"
proof -
  have a: "mouse_down (mouse aim_self_env)"
    and b: "fireRate \<le> 1000 - lastShot (player fresh_world)"
    and c: "mouse_x (mouse aim_self_env) = p_x (player fresh_world)"
    and d: "mouse_y (mouse aim_self_env) = p_y (player fresh_world)"
    by (simp_all add: aim_self_env_def scene_defs makePlayer_def startGame_def
        resetGameState_def CONFIG_defs)
  have e: "p_x (player fresh_world) = 400" "p_y (player fresh_world) = 300" "bullets fresh_world = []"
    by (simp_all add: scene_defs makePlayer_def startGame_def resetGameState_def)
  from shot_at_own_position [OF a b c d] show ?thesis by (simp add: e)
qed

text \<open>
  The claim as stated fails: aiming at the player's own position is no no-op. After the
  frame the bullet list holds a stationary bullet and \<open>lastShot\<close> is the current time.
\<close>

theorem stationary_bullet_is_fired:
  "mouse_x (mouse aim_self_env) = p_x (player fresh_world)
   \<and> mouse_y (mouse aim_self_env) = p_y (player fresh_world)
   \<and> bullets fresh_world = []
   \<and> lastShot (player fresh_world) = 0
   \<and> bullets (update (1/20) 1000 aim_self_env fresh_world)
       = [\<lparr>b_x = 400, b_y = 300, b_vx = 0, b_vy = 0, b_r = 4, life = 1750\<rparr>]
   \<and> lastShot (player (update (1/20) 1000 aim_self_env fresh_world)) = 1000"
  by (simp add: aim_self_env_def scene_defs model_defs CONFIG_defs normalize_vec_zero)

subsection \<open>The player and the arena bounds\<close>
lemma zombie_body_player_pos:
  "p_x (player (zombie_body dt i s)) = p_x (player s)
   \<and> p_y (player (zombie_body dt i s)) = p_y (player s)
   \<and> radius (player (zombie_body dt i s)) = radius (player s)
   \<and> lastShot (player (zombie_body dt i s)) = lastShot (player s)"
  using zombie_body_player [of dt i s] by auto

lemma zombies_loop_player_pos:
  "p_x (player (zombies_loop dt n s)) = p_x (player s)
   \<and> p_y (player (zombies_loop dt n s)) = p_y (player s)
   \<and> radius (player (zombies_loop dt n s)) = radius (player s)
   \<and> lastShot (player (zombies_loop dt n s)) = lastShot (player s)"
  by (induction n arbitrary: s) (simp_all add: zombie_body_player_pos)

lemma update_player_pos:
  "p_x (player (update dt now e s)) = p_x (player (tryShoot now (mouse e) (player_phase dt e s)))
   \<and> p_y (player (update dt now e s)) = p_y (player (tryShoot now (mouse e) (player_phase dt e s)))
   \<and> radius (player (update dt now e s)) = radius (player s)
   \<and> lastShot (player (update dt now e s)) = lastShot (player (tryShoot now (mouse e) (player_phase dt e s)))"
  by (simp add: update_def zombies_phase_def spawn_phase_fields zombies_loop_player_pos
      bullets_phase_fields tryShoot_fields player_phase_fields)

lemma player_phase_inside:
  assumes "2 * (radius (player s) + 6) \<le> canvas_w e" "2 * (radius (player s) + 6) \<le> canvas_h e"
  shows "inside 0 e (player (player_phase dt e s))"
proof -
  let ?r = "radius (player s)"
  have w: "?r + 6 \<le> canvas_w e - ?r - 6" and h: "?r + 6 \<le> canvas_h e - ?r - 6"
    using assms by simp_all
  show ?thesis
    using clamp_bounds [OF w] clamp_bounds [OF h]
    by (simp add: inside_def player_phase_def move_player_def Let_def)
qed

lemma tryShoot_recoil:
  "\<bar>p_x (player (tryShoot now m s)) - p_x (player s)\<bar> \<le> 4
   \<and> \<bar>p_y (player (tryShoot now m s)) - p_y (player s)\<bar> \<le> 4"
  using normalize_vec_x_bound [of "mouse_x m - p_x (player s)" "mouse_y m - p_y (player s)"]
    normalize_vec_y_bound [of "mouse_x m - p_x (player s)" "mouse_y m - p_y (player s)"]
  by (auto simp: tryShoot_def Let_def abs_mult)

text \<open>
  C3 (as amended). In an arena at least \<open>2 * (radius + 6)\<close> wide and high, the player is
  inside the box \<open>[radius + 6, width - radius - 6] \<times> [radius + 6, height - radius - 6]\<close>
  right after the movement step of every frame. At the end of the call the player is inside
  that box if no bullet was fired in the frame, and in any case within the recoil distance 4
  of it on each axis.
\<close>

theorem player_stays_in_arena:
  assumes "2 * (radius (player s) + 6) \<le> canvas_w e" "2 * (radius (player s) + 6) \<le> canvas_h e"
  shows "inside 0 e (player (player_phase dt e s))
       \<and> inside 4 e (player (update dt now e s))
       \<and> (\<not> (mouse_down (mouse e) \<and> fireRate \<le> now - lastShot (player s))
            \<longrightarrow> inside 0 e (player (update dt now e s)))"
proof -
  let ?s1 = "player_phase dt e s"
  have a: "inside 0 e (player ?s1)" using assms by (rule player_phase_inside)
  have r1: "radius (player ?s1) = radius (player s)" and l1: "lastShot (player ?s1) = lastShot (player s)"
    by (simp_all add: player_phase_fields)
  have b: "inside 4 e (player (update dt now e s))"
    using a tryShoot_recoil [of now "mouse e" ?s1] r1
    by (simp add: inside_def update_player_pos) linarith
  have c: "inside 0 e (player (update dt now e s))"
    if "\<not> (mouse_down (mouse e) \<and> fireRate \<le> now - lastShot (player s))"
  proof -
    from that have "tryShoot now (mouse e) ?s1 = ?s1"
      by (intro tryShoot_idle) (simp add: l1)
    with a r1 show ?thesis by (simp add: inside_def update_player_pos)
  qed
  from a b c show ?thesis by blast
qed

theorem player_stays_in_arena_witness:
  "inside 0 fire_env (player (player_phase 0 fire_env edge_world))
   \<and> inside 4 fire_env (player (update 0 1000 fire_env edge_world))
   \<and> inside 0 idle_env (player (update 0 1000 idle_env edge_world))"
proof -
  have w: "2 * (radius (player edge_world) + 6) \<le> canvas_w fire_env"
    and h: "2 * (radius (player edge_world) + 6) \<le> canvas_h fire_env"
    and w': "2 * (radius (player edge_world) + 6) \<le> canvas_w idle_env"
    and h': "2 * (radius (player edge_world) + 6) \<le> canvas_h idle_env"
    by (simp_all add: fire_env_def edge_world_def scene_defs makePlayer_def startGame_def
        resetGameState_def CONFIG_defs)
  have n: "\<not> (mouse_down (mouse idle_env) \<and> fireRate \<le> 1000 - lastShot (player edge_world))"
    by (simp add: idle_env_def)
  from player_stays_in_arena [OF w h, of 0 1000] player_stays_in_arena [OF w' h', of 0 1000] n
  show ?thesis by blast
qed

lemma fire_edge_frame:
  "p_x (player (update 0 1000 fire_env edge_world)) = 18
   \<and> p_y (player (update 0 1000 fire_env edge_world)) = 300
   \<and> radius (player (update 0 1000 fire_env edge_world)) = 16"
  by (simp add: update_player_pos)
     (simp add: fire_env_def edge_world_def scene_defs player_phase_def move_player_def tryShoot_def
      clamp_def makeBullet_def makePlayer_def startGame_def resetGameState_def CONFIG_defs
      normalize_vec_axis)

text \<open>
  The claim as stated fails in a frame with a shot: a player on the left bound who fires
  to the right ends the frame 4 units outside the box.
\<close>

theorem recoil_leaves_arena:
  "p_x (player (update 0 1000 fire_env edge_world)) = 18
   \<and> radius (player (update 0 1000 fire_env edge_world)) + 6 = 22
   \<and> \<not> inside 0 fire_env (player (update 0 1000 fire_env edge_world))"
  by (simp add: inside_def fire_edge_frame)

subsection \<open>A frame of zero duration\<close>

text \<open>
  C4 (as amended). A call with \<open>dt = 0\<close> returns the world unchanged provided that no shot
  is fired in the frame (button not held, or fire interval not yet passed), the player is
  inside the clamping box, no bullet is expired or outside the arena margin, no zombie
  touches the player, no zombie overlaps a bullet, and the spawn condition does not hold.
\<close>

theorem zero_dt_identity:
  assumes "\<not> (mouse_down (mouse e) \<and> fireRate \<le> now - lastShot (player s))"
    and "radius (player s) + 6 \<le> p_x (player s)" "p_x (player s) \<le> canvas_w e - radius (player s) - 6"
    and "radius (player s) + 6 \<le> p_y (player s)" "p_y (player s) \<le> canvas_h e - radius (player s) - 6"
    and "\<forall>b \<in> set (bullets s). \<not> bullet_gone (canvas_w e) (canvas_h e) b"
    and "\<forall>z \<in> set (zombies s). \<not> zombie_touches z (player s)"
    and "\<forall>z \<in> set (zombies s). \<forall>b \<in> set (bullets s). \<not> bullet_hits b z"
    and "\<not> (spawnInterval s < spawnTimer s
              \<and> int (length (zombies s))
                  < desiredMaxZombies_of (difficultyLevel_of (difficultyTimer s)) (score s))"
  shows "update 0 now e s = s \<and> advance 0 now e s = s"
proof -
  have 1: "player_phase 0 e s = s" using assms(2-5) by (rule player_phase_0)
  have 2: "tryShoot now (mouse e) s = s" using assms(1) by (rule tryShoot_idle)
  have 3: "bullets_phase 0 e s = s" using assms(6) by (rule bullets_phase_0)
  have 4: "zombies_phase 0 s = s"
    unfolding zombies_phase_def using assms(7,8) by (intro zombies_loop_0) simp_all
  have 5: "spawn_phase 0 e s = s" using assms(9) by (rule spawn_phase_0)
  have "update 0 now e s = s" by (simp only: update_def 1 2 3 4 5)
  then show ?thesis by (simp add: advance_def)
qed

theorem zero_dt_identity_witness:
  "update 0 0 idle_env calm_world = calm_world"
proof -
  have "update 0 0 idle_env calm_world = calm_world \<and> advance 0 0 idle_env calm_world = calm_world"
    by (rule zero_dt_identity)
       (simp_all add: calm_world_def scene_defs makePlayer_def makeBullet_def makeZombie_def
         startGame_def resetGameState_def CONFIG_defs bullet_gone_def zombie_touches_def
         bullet_hits_def dist2_def desiredMaxZombies_of_def difficultyLevel_of_def clamp_def)
  then show ?thesis by blast
qed

text \<open>
  The claim as stated fails: firing is gated by the time stamp, not by \<open>dt\<close>, so a frame
  of zero duration can add a bullet and move the player by the recoil.
\<close>

theorem zero_dt_shot_changes_world:
  "bullets fresh_world = []
   \<and> bullets (update 0 1000 fire_env fresh_world) = [makeBullet 424 300 800 0]
   \<and> p_x (player fresh_world) = 400
   \<and> p_x (player (update 0 1000 fire_env fresh_world)) = 396
   \<and> lastShot (player (update 0 1000 fire_env fresh_world)) = 1000
   \<and> update 0 1000 fire_env fresh_world \<noteq> fresh_world"
proof -
  have a: "bullets fresh_world = [] \<and> p_x (player fresh_world) = 400"
    by (simp add: scene_defs makePlayer_def startGame_def resetGameState_def)
  have b: "bullets (update 0 1000 fire_env fresh_world) = [makeBullet 424 300 800 0]
     \<and> p_x (player (update 0 1000 fire_env fresh_world)) = 396
     \<and> lastShot (player (update 0 1000 fire_env fresh_world)) = 1000"
    by (simp add: fire_env_def scene_defs model_defs CONFIG_defs normalize_vec_axis)
  from a b have "bullets (update 0 1000 fire_env fresh_world) \<noteq> bullets fresh_world" by simp
  then have "update 0 1000 fire_env fresh_world \<noteq> fresh_world" by auto
  with a b show ?thesis by blast
qed

subsection \<open>A zombie overlapping several bullets\<close>

text \<open>
  C5 (as amended). When the zombie at index \<open>i\<close> does not touch the player after its move
  and overlaps at least one bullet, the bullet removed with it is the overlapping bullet of
  the highest index (the scan runs from the last bullet down). Exactly that bullet and that
  zombie are spliced out, the score grows by exactly 10, and the scan stops there, so the
  iteration removes one zombie and one bullet.
\<close>

theorem last_overlapping_bullet_wins:
  assumes "i < length (zombies s)"
    and "\<not> zombie_touches (zombie_move dt (player s) (zombies s ! i)) (player s)"
    and "j < length (bullets s)"
    and "bullet_hits (bullets s ! j) (zombie_move dt (player s) (zombies s ! i))"
    and "\<forall>k. j < k \<and> k < length (bullets s)
           \<longrightarrow> \<not> bullet_hits (bullets s ! k) (zombie_move dt (player s) (zombies s ! i))"
  shows "zombie_body dt i s =
           s\<lparr>zombies := splice1 i (zombies s), bullets := splice1 j (bullets s),
             score := score s + 10\<rparr>
       \<and> length (bullets (zombie_body dt i s)) = length (bullets s) - 1
       \<and> length (zombies (zombie_body dt i s)) = length (zombies s) - 1"
proof -
  let ?z = "zombie_move dt (player s) (zombies s ! i)"
  let ?n = "length (bullets s)"
  have "bullet_scan (bullets s) ?z ?n \<noteq> None"
    using assms(3,4) by (auto simp: bullet_scan_None)
  then obtain j' where j': "bullet_scan (bullets s) ?z ?n = Some j'" by blast
  from bullet_scan_Some [OF j'] have p: "j' < ?n" "bullet_hits (bullets s ! j') ?z"
    "\<forall>k. j' < k \<and> k < ?n \<longrightarrow> \<not> bullet_hits (bullets s ! k) ?z"
    by blast+
  have "j' = j"
  proof (rule ccontr)
    assume "j' \<noteq> j"
    then consider "j' < j" | "j < j'" by linarith
    then show False
    proof cases
      case 1
      with p(3) assms(3,4) show False by blast
    next
      case 2
      with assms(5) p(1,2) show False by blast
    qed
  qed
  with j' assms(2) have "zombie_body dt i s =
           s\<lparr>zombies := splice1 i (zombies s), bullets := splice1 j (bullets s),
             score := score s + 10\<rparr>"
    by (simp add: zombie_body_def Let_def splice1_update)
  then show ?thesis using assms(1,3) by (simp add: length_splice1)
qed

theorem last_overlapping_bullet_wins_witness:
  "zombie_body 0 0 kill_world =
     kill_world\<lparr>zombies := splice1 0 (zombies kill_world),
                bullets := splice1 2 (bullets kill_world),
                score := score kill_world + 10\<rparr>"
proof -
  have a: "2 < length (bullets kill_world)" by (simp add: kill_facts(5))
  have b: "\<forall>k. 2 < k \<and> k < length (bullets kill_world)
      \<longrightarrow> \<not> bullet_hits (bullets kill_world ! k) (zombie_move 0 (player kill_world) (zombies kill_world ! 0))"
  proof (intro allI impI)
    fix k assume "2 < k \<and> k < length (bullets kill_world)"
    then have "k = 3" by (simp add: kill_facts(5))
    then show "\<not> bullet_hits (bullets kill_world ! k) (zombie_move 0 (player kill_world) (zombies kill_world ! 0))"
      by (simp add: kill_facts(4))
  qed
  from last_overlapping_bullet_wins [OF kill_facts(6) kill_facts(1) a kill_facts(2) b] show ?thesis by blast
qed

text \<open>
  The claim as stated fails: with the bullets at indices 1 and 2 both overlapping the zombie,
  the bullet at index 2 is removed and the one at index 1, the lowest overlapping one, stays.
\<close>

theorem lowest_overlapping_bullet_survives:
  "bullet_hits (bullets kill_world ! 1) (zombie_move 0 (player kill_world) (zombies kill_world ! 0))
   \<and> bullet_hits (bullets kill_world ! 2) (zombie_move 0 (player kill_world) (zombies kill_world ! 0))
   \<and> bullets kill_world ! 1 \<noteq> bullets kill_world ! 2
   \<and> bullets (update 0 0 idle_env kill_world)
       = [bullets kill_world ! 0, bullets kill_world ! 1, bullets kill_world ! 3]
   \<and> bullets (update 0 0 idle_env kill_world) \<noteq> splice1 1 (bullets kill_world)
   \<and> score (update 0 0 idle_env kill_world) = score kill_world + 10"
proof -
  have b: "bullets (update 0 0 idle_env kill_world) = splice1 2 (bullets kill_world)"
    and sc: "score (update 0 0 idle_env kill_world) = score kill_world + 10"
    using kill_update by simp_all
  have l: "splice1 2 (bullets kill_world) = [bullets kill_world ! 0, bullets kill_world ! 1, bullets kill_world ! 3]"
    "splice1 1 (bullets kill_world) \<noteq> splice1 2 (bullets kill_world)"
    "bullets kill_world ! 1 \<noteq> bullets kill_world ! 2"
    by (simp_all add: kill_world_def splice1_def makeBullet_def)
  from b sc l kill_facts(2,3) show ?thesis by simp
qed

subsection \<open>The gate of the spawn step\<close>

lemma length_spawnZombie: "length (spawnZombie e lvl zs) = Suc (length zs)"
  by (simp add: spawnZombie_def Let_def split: prod.split)

lemma spawn_phase_zombies_le: "length (zombies (spawn_phase dt e s)) \<le> Suc (length (zombies s))"
  by (simp add: spawn_phase_def Let_def length_spawnZombie)

text \<open>
  C6. With \<open>difficultyLevel = floor (difficultyTimer / 15000)\<close> and
  \<open>desiredMaxZombies = clamp (5 + difficultyLevel * 2 + floor (score / 100)) 6 maxZombies\<close>,
  both taken after the timers have been advanced, the spawn step appends one zombie and
  resets \<open>spawnTimer\<close> to 0 if \<open>spawnTimer\<close> exceeds \<open>spawnInterval\<close> and the number of
  zombies is below \<open>desiredMaxZombies\<close>; otherwise it leaves the zombies alone. The spawn
  step is the last phase of \<open>update\<close>, and a call of \<open>update\<close> adds at most one zombie.
\<close>

theorem spawn_only_below_cap:
  "(let difficultyLevel = \<lfloor>(difficultyTimer s + dt * 1000) / 15000\<rfloor>;
        desiredMaxZombies = clamp (5 + difficultyLevel * 2 + \<lfloor>real_of_int (score s) / 100\<rfloor>) 6 maxZombies;
        s' = spawn_phase dt e s
    in if spawnInterval s < spawnTimer s + dt * 1000 \<and> int (length (zombies s)) < desiredMaxZombies
       then zombies s' = spawnZombie e difficultyLevel (zombies s)
            \<and> length (zombies s') = Suc (length (zombies s)) \<and> spawnTimer s' = 0
       else zombies s' = zombies s \<and> spawnTimer s' = spawnTimer s + dt * 1000)
   \<and> update dt now e w
       = spawn_phase dt e (zombies_phase dt (bullets_phase dt e (tryShoot now (mouse e) (player_phase dt e w))))
   \<and> length (zombies (update dt now e w)) \<le> Suc (length (zombies w))"
proof -
  let ?mid = "zombies_phase dt (bullets_phase dt e (tryShoot now (mouse e) (player_phase dt e w)))"
  have "length (zombies ?mid) \<le> length (zombies w)"
    using zombies_loop_zombies_le [of dt "length (zombies (bullets_phase dt e (tryShoot now (mouse e) (player_phase dt e w))))"
        "bullets_phase dt e (tryShoot now (mouse e) (player_phase dt e w))"]
    by (simp add: zombies_phase_def bullets_phase_fields tryShoot_fields player_phase_fields)
  with spawn_phase_zombies_le [of dt e ?mid]
  have "length (zombies (update dt now e w)) \<le> Suc (length (zombies w))"
    by (simp add: update_def)
  then show ?thesis
    by (simp add: spawn_phase_def Let_def difficultyLevel_of_def desiredMaxZombies_of_def
        length_spawnZombie update_def)
qed

theorem spawn_only_below_cap_witness:
  "zombies (spawn_phase (1/20) idle_env due_world) = [makeZombie 0 20 (- 40) 50]
   \<and> spawnTimer (spawn_phase (1/20) idle_env due_world) = 0"
  using spawn_only_below_cap [of due_world "1/20" idle_env, THEN conjunct1]
  by (simp add: Let_def due_world_def scene_defs startGame_def resetGameState_def clamp_def
      spawnZombie_def randRange_def CONFIG_defs)

subsection \<open>The score\<close>



subsection \<open>Five contacts end the round\<close>

text \<open>
  Every contact event costs the player exactly the contact damage, and nothing else changes
  the hit points.
\<close>

lemma zombie_body_contact_hp:
  "hp (player (zombie_body dt i s))
     = hp (player s)
       - damageOnTouch
         * (if zombie_touches (zombie_move dt (player s) (zombies s ! i)) (player s) then 1 else 0)"
  by (simp add: zombie_body_def Let_def split: option.split)

lemma zombies_loop_contact_hp:
  "hp (player (zombies_loop dt n s)) = hp (player s) - damageOnTouch * int (contacts_loop dt n s)"
proof (induction n arbitrary: s)
  case 0
  show ?case by simp
next
  case (Suc n)
  have "hp (player (zombies_loop dt (Suc n) s))
      = hp (player (zombie_body dt n s)) - damageOnTouch * int (contacts_loop dt n (zombie_body dt n s))"
    by (simp add: Suc.IH)
  also have "\<dots> = hp (player s) - damageOnTouch * int (contacts_loop dt (Suc n) s)"
    by (simp add: zombie_body_contact_hp algebra_simps)
  finally show ?case .
qed

lemma update_contact_hp:
  "hp (player (update dt now e s)) = hp (player s) - damageOnTouch * int (update_contacts dt now e s)"
  using zombies_loop_contact_hp [of dt "length (zombies (bullets_phase dt e (tryShoot now (mouse e) (player_phase dt e s))))"
      "bullets_phase dt e (tryShoot now (mouse e) (player_phase dt e s))"]
  by (simp add: update_def update_contacts_def zombies_phase_def spawn_phase_fields
      bullets_phase_fields tryShoot_fields player_phase_fields Let_def)

lemma gameLoop_contact_hp:
  "hp (player (world (gameLoop now e g)))
     = hp (player (world g)) - damageOnTouch * int (frame_contacts now e g)"
  by (simp add: gameLoop_def Let_def advance_def frame_contacts_def update_contact_hp)

lemma run_contact_hp:
  "hp (player (world (run fs g)))
     = hp (player (world g)) - damageOnTouch * int (run_contacts fs g)"
proof (induction fs arbitrary: g)
  case Nil
  show ?case by simp
next
  case (Cons f fs)
  obtain now e where f: "f = (now, e)" by (cases f)
  show ?case
    by (simp add: f Cons.IH gameLoop_contact_hp algebra_simps)
qed

text \<open>
  C9. Start with a running world and 100 hit points, the contact damage being 20. Once the
  frames of the main loop have seen exactly five zombie-player contact events (one per
  frame in five separate frames, with any number of contact-free frames between them, or
  in any other grouping), the hit points are at most 0 and \<open>running\<close> is false, while
  after every prefix of the frames with fewer than five contacts the round is still running.
  From then on the guarded call of \<open>update\<close> changes nothing in the world, whatever the
  inputs.
\<close>

theorem five_contacts_end_round:
  assumes "running (world g)" and "hp (player (world g)) = 100"
    and "run_contacts fs g = 5"
  shows "hp (player (world (run fs g))) \<le> 0
       \<and> \<not> running (world (run fs g))
       \<and> (\<forall>k. run_contacts (take k fs) g < 5 \<longrightarrow> running (world (run (take k fs) g)))
       \<and> (\<forall>dt now e. advance dt now e (world (run fs g)) = world (run fs g))
       \<and> (\<forall>now e. world (gameLoop now e (run fs g)) = world (run fs g))"
proof -
  have inv0: "alive_inv (world g)" using assms(1,2) by (simp add: alive_inv_def)
  have hp5: "hp (player (world (run fs g))) = 0"
    using run_contact_hp [of fs g] assms(2,3) by (simp add: damageOnTouch_def)
  have "alive_inv (world (run fs g))" using inv0 by (rule run_alive_inv)
  with hp5 have stop: "\<not> running (world (run fs g))" by (simp add: alive_inv_def)
  have early: "running (world (run (take k fs) g))" if "run_contacts (take k fs) g < 5" for k
  proof -
    from run_contact_hp [of "take k fs" g] assms(2) that
    have "0 < hp (player (world (run (take k fs) g)))" by (simp add: damageOnTouch_def)
    moreover have "alive_inv (world (run (take k fs) g))" using inv0 by (rule run_alive_inv)
    ultimately show ?thesis by (simp add: alive_inv_def)
  qed
  have noop: "advance dt now e (world (run fs g)) = world (run fs g)" for dt now e
    using stop by (rule advance_not_running)
  then have noop2: "world (gameLoop now e (run fs g)) = world (run fs g)" for now e
    by (simp add: gameLoop_def Let_def)
  from hp5 stop early noop noop2 show ?thesis by simp
qed

theorem five_contacts_end_round_witness:
  "run_contacts march_frames march_game = 5
   \<and> frame_contacts 50 idle_env march_game = 0
   \<and> hp (player (world (run march_frames march_game))) \<le> 0
   \<and> \<not> running (world (run march_frames march_game))
   \<and> running (world (run (take 5 march_frames) march_game))
   \<and> advance (1/20) 350 idle_env (world (run march_frames march_game))
       = world (run march_frames march_game)"
proof -
  have r: "running (world march_game)" and h: "hp (player (world march_game)) = 100"
    by (simp_all add: march_game_def march_state_fields)
  have b: "run_contacts (take 5 march_frames) march_game < 5"
    by (simp add: march_contacts_before)
  have c: "frame_contacts 50 idle_env march_game = 0"
    unfolding march_game_def by (rule march_contacts1)
  from five_contacts_end_round [OF r h march_contacts] b c march_contacts
  show ?thesis by blast
qed

subsection \<open>Bullets in flight\<close>

lemma subseq_splice1: "subseq (splice1 j xs) xs"
proof -
  have "suffix (drop (Suc 0) (drop j xs)) (drop j xs)" by (rule suffix_drop)
  then have "subseq (drop (Suc j) xs) (drop j xs)" by (auto dest: suffix_imp_subseq)
  then have "subseq (take j xs @ drop (Suc j) xs) (take j xs @ drop j xs)"
    by (simp only: subseq_append')
  then show ?thesis by (simp add: splice1_def)
qed

lemma zombie_body_bullets_subseq: "subseq (bullets (zombie_body dt i s)) (bullets s)"
  by (simp add: zombie_body_def Let_def subseq_splice1 split: option.split)

lemma zombies_loop_bullets_subseq: "subseq (bullets (zombies_loop dt n s)) (bullets s)"
proof (induction n arbitrary: s)
  case 0
  show ?case by simp
next
  case (Suc n)
  have "subseq (bullets (zombies_loop dt n (zombie_body dt n s))) (bullets (zombie_body dt n s))"
    by (rule Suc.IH)
  also have "subseq \<dots> (bullets s)" by (rule zombie_body_bullets_subseq)
  finally show ?case by simp
qed

lemma subseq_map_source:
  "subseq xs (map f ys) \<Longrightarrow> \<exists>zs. subseq zs ys \<and> xs = map f zs"
proof (induction ys arbitrary: xs)
  case Nil
  then have "xs = []" by (auto dest: list_emb_Nil2)
  then show ?case by simp
next
  case (Cons y ys)
  show ?case
  proof (cases xs)
    case Nil
    then show ?thesis by simp
  next
    case (Cons x xs')
    show ?thesis
    proof (cases "x = f y")
      case True
      with Cons.prems Cons have "subseq xs' (map f ys)" by simp
      from Cons.IH [OF this] obtain zs where "subseq zs ys" "xs' = map f zs" by blast
      with True Cons have "subseq (y # zs) (y # ys) \<and> xs = map f (y # zs)" by simp
      then show ?thesis by blast
    next
      case False
      with Cons.prems Cons have "subseq xs (map f ys)" by simp
      from Cons.IH [OF this] obtain zs where "subseq zs ys" "xs = map f zs" by blast
      then have "subseq zs (y # ys) \<and> xs = map f zs" by (simp add: list_emb_Cons)
      then show ?thesis by blast
    qed
  qed
qed

lemma tryShoot_bullets_eq:
  "bullets (tryShoot now m s) =
     bullets s @
     (if mouse_down m \<and> fireRate \<le> now - lastShot (player s)
      then [makeBullet
              (p_x (player s)
                 + vec_x (normalize_vec (mouse_x m - p_x (player s)) (mouse_y m - p_y (player s)))
                   * (radius (player s) + 8))
              (p_y (player s)
                 + vec_y (normalize_vec (mouse_x m - p_x (player s)) (mouse_y m - p_y (player s)))
                   * (radius (player s) + 8))
              (vec_x (normalize_vec (mouse_x m - p_x (player s)) (mouse_y m - p_y (player s)))
                 * bulletSpeed)
              (vec_y (normalize_vec (mouse_x m - p_x (player s)) (mouse_y m - p_y (player s)))
                 * bulletSpeed)]
      else [])"
  by (auto simp: tryShoot_def Let_def)

lemma update_bullets_subseq:
  "subseq (bullets (update dt now e s))
     (map (bullet_step dt) (bullets (tryShoot now (mouse e) (player_phase dt e s))))"
proof -
  let ?s2 = "tryShoot now (mouse e) (player_phase dt e s)"
  have "subseq (bullets (update dt now e s)) (bullets (bullets_phase dt e ?s2))"
    using zombies_loop_bullets_subseq [of dt "length (zombies (bullets_phase dt e ?s2))" "bullets_phase dt e ?s2"]
    by (simp add: update_def zombies_phase_def spawn_phase_fields)
  also have "subseq \<dots> (map (bullet_step dt) (bullets ?s2))"
    by (simp add: bullets_phase_eq)
  finally show ?thesis .
qed

text \<open>
  C10. Take the bullets of the world before a call of \<open>update\<close>, followed by the bullet
  that \<open>tryShoot\<close> makes in this call if it fires. The bullets of the world after the call
  are, in the same order, those of a subsequence of that list, each with its position
  advanced by its velocity times \<open>dt\<close> and its life lowered by \<open>dt * 1000\<close>, and each with
  the velocity and the radius it had.
\<close>

theorem bullets_keep_velocity:
  "let p = player (player_phase dt e s);
       n = normalize_vec (mouse_x (mouse e) - p_x p) (mouse_y (mouse e) - p_y p);
       shot = (if mouse_down (mouse e) \<and> fireRate \<le> now - lastShot p
               then [makeBullet (p_x p + vec_x n * (radius p + 8)) (p_y p + vec_y n * (radius p + 8))
                       (vec_x n * bulletSpeed) (vec_y n * bulletSpeed)]
               else [])
   in \<exists>bs. subseq bs (bullets s @ shot)
        \<and> bullets (update dt now e s)
            = map (\<lambda>b. b\<lparr>b_x := b_x b + b_vx b * dt, b_y := b_y b + b_vy b * dt,
                          life := life b - dt * 1000\<rparr>) bs
        \<and> list_all2 (\<lambda>b b'. b_vx b' = b_vx b \<and> b_vy b' = b_vy b \<and> b_r b' = b_r b)
            bs (bullets (update dt now e s))"
proof -
  let ?s1 = "player_phase dt e s"
  let ?B = "bullets (tryShoot now (mouse e) ?s1)"
  let ?f = "\<lambda>b. b\<lparr>b_x := b_x b + b_vx b * dt, b_y := b_y b + b_vy b * dt,
                   life := life b - dt * 1000\<rparr>"
  have f: "bullet_step dt = ?f" by (rule ext) (simp add: bullet_step_def)
  from update_bullets_subseq [of dt now e s]
  obtain bs where bs: "subseq bs ?B" and out: "bullets (update dt now e s) = map ?f bs"
    unfolding f by (blast dest: subseq_map_source)
  have "list_all2 (\<lambda>b b'. b_vx b' = b_vx b \<and> b_vy b' = b_vy b \<and> b_r b' = b_r b)
          bs (bullets (update dt now e s))"
    by (simp add: out list_all2_map2 list_all2_same)
  with bs out show ?thesis
    by (auto simp: Let_def tryShoot_bullets_eq player_phase_fields)
qed

lemma calm_frame_bullets:
  "bullets (update (1/20) 50 idle_env calm_world)
     = [\<lparr>b_x = 490, b_y = 300, b_vx = 800, b_vy = 0, b_r = 4, life = 1750\<rparr>]"
  by (simp add: calm_world_def scene_defs model_defs CONFIG_defs normalize_vec_axis)

theorem bullets_keep_velocity_witness:
  "\<exists>bs. subseq bs (bullets calm_world)
      \<and> [\<lparr>b_x = 490, b_y = 300, b_vx = 800, b_vy = 0, b_r = 4, life = 1750\<rparr>]
          = map (\<lambda>b. b\<lparr>b_x := b_x b + b_vx b * (1/20), b_y := b_y b + b_vy b * (1/20),
                        life := life b - (1/20) * 1000\<rparr>) bs"
proof -
  have n: "\<not> mouse_down (mouse idle_env)" by (simp add: idle_env_def)
  from bullets_keep_velocity [of "1/20" idle_env calm_world 50] n
  show ?thesis by (auto simp: Let_def calm_frame_bullets)
qed

end
